theory Spec2Isabelle
  imports Complex_Main "HOL-Library.Char_ord" "HOL-Library.List_Lexorder" "HOL-Library.AList"
begin

section \<open>Numeric cells\<close>

text \<open>
  A numeric cell of a pandas column is a float64. The model keeps the four kinds of value
  that decide what the filters of the loaders do: a finite number, the two infinities and
  NaN (which is also how pandas stores a missing numeric cell). Finite arithmetic is exact
  (no rounding, no overflow) and zero carries no sign.
\<close>

datatype fval = NaN | NInf | Fin real | PInf

text \<open>Comparisons: every comparison with NaN is False.\<close>

fun fle :: "fval \<Rightarrow> fval \<Rightarrow> bool" where
  "fle NaN b = False"
| "fle a NaN = False"
| "fle NInf b = True"
| "fle a PInf = True"
| "fle (Fin x) (Fin y) = (x \<le> y)"
| "fle (Fin x) NInf = False"
| "fle PInf b = False"

fun flt :: "fval \<Rightarrow> fval \<Rightarrow> bool" where
  "flt NaN b = False"
| "flt a NaN = False"
| "flt PInf b = False"
| "flt a NInf = False"
| "flt (Fin x) (Fin y) = (x < y)"
| "flt NInf b = True"
| "flt (Fin x) PInf = True"

fun fneg :: "fval \<Rightarrow> fval" where
  "fneg NaN = NaN"
| "fneg NInf = PInf"
| "fneg PInf = NInf"
| "fneg (Fin x) = Fin (- x)"

fun fadd :: "fval \<Rightarrow> fval \<Rightarrow> fval" where
  "fadd NaN b = NaN"
| "fadd a NaN = NaN"
| "fadd PInf NInf = NaN"
| "fadd NInf PInf = NaN"
| "fadd PInf b = PInf"
| "fadd a PInf = PInf"
| "fadd NInf b = NInf"
| "fadd a NInf = NInf"
| "fadd (Fin x) (Fin y) = Fin (x + y)"

definition fsub :: "fval \<Rightarrow> fval \<Rightarrow> fval" where
  "fsub a b = fadd a (fneg b)"

text \<open>The sign of a cell: \<open>1\<close>, \<open>0\<close> or \<open>-1\<close> (NaN has none and is handled before).\<close>

fun fsign :: "fval \<Rightarrow> int" where
  "fsign NaN = 0"
| "fsign NInf = - 1"
| "fsign PInf = 1"
| "fsign (Fin x) = (if x < 0 then - 1 else if x = 0 then 0 else 1)"

definition inf_of_sign :: "int \<Rightarrow> fval" where
  "inf_of_sign s = (if s < 0 then NInf else if s = 0 then NaN else PInf)"

fun fmul :: "fval \<Rightarrow> fval \<Rightarrow> fval" where
  "fmul NaN b = NaN"
| "fmul a NaN = NaN"
| "fmul (Fin x) (Fin y) = Fin (x * y)"
| "fmul a b = inf_of_sign (fsign a * fsign b)"

text \<open>
  Division of two columns, as numpy does it: no exception, a finite number over zero is
  an infinity of the numerator's sign, zero over zero is NaN.
\<close>

fun fdiv :: "fval \<Rightarrow> fval \<Rightarrow> fval" where
  "fdiv NaN b = NaN"
| "fdiv a NaN = NaN"
| "fdiv (Fin x) (Fin y) = (if y = 0 then inf_of_sign (fsign (Fin x)) else Fin (x / y))"
| "fdiv (Fin x) b = Fin 0"
| "fdiv a (Fin y) = (if y < 0 then fneg a else a)"
| "fdiv a b = NaN"

definition isna :: "fval \<Rightarrow> bool" where
  "isna v = (v = NaN)"

section \<open>Session records\<close>

datatype weekday = Monday | Tuesday | Wednesday | Thursday | Friday | Saturday | Sunday

fun day_name :: "weekday \<Rightarrow> string" where
  "day_name Monday = ''Monday''"
| "day_name Tuesday = ''Tuesday''"
| "day_name Wednesday = ''Wednesday''"
| "day_name Thursday = ''Thursday''"
| "day_name Friday = ''Friday''"
| "day_name Saturday = ''Saturday''"
| "day_name Sunday = ''Sunday''"

record timestamp =
  ts_weekday :: weekday
  ts_hour :: nat

text \<open>
  A timestamp cell of the CSV as \<open>pd.to_datetime\<close> reads it: text that does not parse
  (the conversion raises), an empty cell (NaT), or a point in time.
\<close>

datatype time_cell = Unparseable | NaT | Time timestamp

text \<open>One row of \<open>ev_charging_patterns.csv\<close>, with the columns the three modules read.\<close>

record session =
  charging_start_time :: time_cell
  charging_end_time :: time_cell
  soc_start :: fval
  soc_end :: fval
  energy_consumed :: fval
  charging_duration :: fval
  distance_driven :: fval
  charging_cost :: fval
  battery_capacity :: fval
  vehicle_age :: fval
  vehicle_model :: "string option"
  user_type :: "string option"
  temperature :: fval

text \<open>
  What the code can raise: a missing file, a timestamp that does not parse, an index out
  of range, and whatever a library routine raises.
\<close>

datatype error = FileNotFoundError | ParseError | IndexError | LibraryError

type_synonym filesystem = "string \<Rightarrow> session list option"

definition read_csv :: "filesystem \<Rightarrow> string \<Rightarrow> error + session list" where
  "read_csv fs path = (case fs path of None \<Rightarrow> Inl FileNotFoundError | Some df \<Rightarrow> Inr df)"

definition to_datetime :: "time_cell list \<Rightarrow> error + time_cell list" where
  "to_datetime col = (if Unparseable \<in> set col then Inl ParseError else Inr col)"

text \<open>
  \<open>pd.cut(x, bins, labels)\<close> with its defaults (\<open>right=True\<close>, \<open>include_lowest=False\<close>):
  the \<open>i\<close>-th label for a value in the half-open interval \<open>(bins[i], bins[i+1]]\<close>, and no
  label (NaN) for a value in none of them.
\<close>

fun cut_bins :: "fval list \<Rightarrow> 'a list \<Rightarrow> fval \<Rightarrow> 'a option" where
  "cut_bins (lo # hi # bins) (l # labels) x =
     (if flt lo x \<and> fle x hi then Some l else cut_bins (hi # bins) labels x)"
| "cut_bins bins labels x = None"

section \<open>The loader of charging\_patterns\_analysis\<close>

record charging_row = session +
  percentage_charged :: fval
  hour :: fval
  day_of_week :: "string option"
  time_of_day :: "string option"

record charging_report =
  removed_negative :: nat
  removed_above_100 :: nat

definition dt_hour :: "time_cell \<Rightarrow> fval" where
  "dt_hour c = (case c of Time t \<Rightarrow> Fin (real (ts_hour t)) | _ \<Rightarrow> NaN)"

definition dt_day_name :: "time_cell \<Rightarrow> string option" where
  "dt_day_name c = (case c of Time t \<Rightarrow> Some (day_name (ts_weekday t)) | _ \<Rightarrow> None)"

definition time_of_day_bins :: "fval list" where
  "time_of_day_bins = [NInf, Fin 6, Fin 12, Fin 18, PInf]"

definition time_of_day_labels :: "string list" where
  "time_of_day_labels = [''Night'', ''Morning'', ''Afternoon'', ''Evening'']"

text \<open>
  The column \<open>Percentage Charged\<close> is computed on every row; the filter keeps the rows
  with a value in \<open>[0, 100]\<close>; the two printed counts are taken from the frame the
  filter has already produced; the time columns are added last.
\<close>

definition with_percentage_charged :: "session \<Rightarrow> session \<times> fval" where
  "with_percentage_charged r = (r, fsub (soc_end r) (soc_start r))"

definition with_time_features :: "session \<times> fval \<Rightarrow> charging_row" where
  "with_time_features rp =
     (let r = fst rp; h = dt_hour (charging_start_time r) in
      session.extend r
        (charging_row.fields (snd rp) h (dt_day_name (charging_start_time r))
           (cut_bins time_of_day_bins time_of_day_labels h)))"

definition cp_prepare :: "session list \<Rightarrow> charging_row list \<times> charging_report" where
  "cp_prepare df0 =
     (let df1 = map with_percentage_charged df0;
          df2 = filter (\<lambda>rp. fle (Fin 0) (snd rp) \<and> fle (snd rp) (Fin 100)) df1;
          report = \<lparr> removed_negative = length (filter (\<lambda>rp. flt (snd rp) (Fin 0)) df2),
                     removed_above_100 = length (filter (\<lambda>rp. flt (Fin 100) (snd rp)) df2) \<rparr>
      in (map with_time_features df2, report))"

definition cp_load_and_prepare_data ::
  "filesystem \<Rightarrow> error + charging_row list \<times> charging_report" where
  "cp_load_and_prepare_data fs =
     (case read_csv fs ''ev_charging_patterns.csv'' of
        Inl e \<Rightarrow> Inl e
      | Inr df \<Rightarrow>
         (case to_datetime (map charging_start_time df) of
            Inl e \<Rightarrow> Inl e
          | Inr _ \<Rightarrow>
             (case to_datetime (map charging_end_time df) of
                Inl e \<Rightarrow> Inl e
              | Inr _ \<Rightarrow> Inr (cp_prepare df))))"

section \<open>Quartiles and IQR fences\<close>

text \<open>
  \<open>Series.quantile\<close> is library code. The loaders take it as the parameter
  \<open>quantile\<close>, so what is proved about them holds whatever it computes. Each loader
  derives its fences from the two quartiles in the same four lines; \<open>iqr_fences\<close> is
  those lines.
\<close>

type_synonym quantile_fn = "fval list \<Rightarrow> real \<Rightarrow> fval"

record fences =
  lower_bound :: fval
  upper_bound :: fval

definition iqr_fences :: "quantile_fn \<Rightarrow> fval list \<Rightarrow> fences" where
  "iqr_fences quantile col =
     (let Q1 = quantile col 0.25;
          Q3 = quantile col 0.75;
          IQR = fsub Q3 Q1
      in \<lparr> lower_bound = fsub Q1 (fmul (Fin 1.5) IQR),
           upper_bound = fadd Q3 (fmul (Fin 1.5) IQR) \<rparr>)"

definition in_fences :: "fences \<Rightarrow> fval \<Rightarrow> bool" where
  "in_fences f v = (fle (lower_bound f) v \<and> fle v (upper_bound f))"

text \<open>
  For the examples, the quantile pandas computes by default (\<open>interpolation='linear'\<close>,
  through \<open>numpy.percentile\<close>): missing values are skipped, the rest is sorted, and the
  result is interpolated between the two order statistics around position \<open>q (n - 1)\<close>.
\<close>

fun insort_f :: "fval \<Rightarrow> fval list \<Rightarrow> fval list" where
  "insort_f x [] = [x]"
| "insort_f x (y # ys) = (if fle x y then x # y # ys else y # insort_f x ys)"

definition sort_f :: "fval list \<Rightarrow> fval list" where
  "sort_f xs = foldr insort_f xs []"

definition lerp :: "fval \<Rightarrow> fval \<Rightarrow> real \<Rightarrow> fval" where
  "lerp a b t =
     (let diff_b_a = fsub b a in
      if 1 / 2 \<le> t then fsub b (fmul diff_b_a (Fin (1 - t)))
      else fadd a (fmul diff_b_a (Fin t)))"

definition quantile_linear :: quantile_fn where
  "quantile_linear col q =
     (let vs = sort_f (filter (\<lambda>v. \<not> isna v) col); n = length vs in
      if n = 0 then NaN
      else (let pos = q * real (n - 1);
                i = nat \<lfloor>pos\<rfloor>;
                j = min (i + 1) (n - 1)
            in lerp (vs ! i) (vs ! j) (pos - real i)))"

section \<open>The loader of ev\_analysis\<close>

record ev_row = session +
  cost_efficiency :: fval

record ev_report =
  cost_upper_outliers :: nat
  cost_lower_outliers :: nat
  battery_upper_outliers :: nat
  battery_lower_outliers :: nat

definition with_cost_efficiency :: "session \<Rightarrow> session \<times> fval" where
  "with_cost_efficiency r = (r, fdiv (charging_cost r) (energy_consumed r))"

definition ev_dropna :: "session \<times> fval \<Rightarrow> bool" where
  "ev_dropna rp =
     (\<not> isna (vehicle_age (fst rp)) \<and> \<not> isna (battery_capacity (fst rp)) \<and>
      \<not> isna (charging_cost (fst rp)) \<and> \<not> isna (energy_consumed (fst rp)) \<and>
      \<not> isna (snd rp))"

definition mk_ev_row :: "session \<times> fval \<Rightarrow> ev_row" where
  "mk_ev_row rp = session.extend (fst rp) (ev_row.fields (snd rp))"

text \<open>
  Both pairs of fences come from the frame as read; one boolean mask applies the four
  comparisons; the four printed counts are taken from the filtered frame; rows with a
  missing value in one of the five numeric columns go last.
\<close>

definition ev_prepare :: "quantile_fn \<Rightarrow> session list \<Rightarrow> ev_row list \<times> ev_report" where
  "ev_prepare quantile df0 =
     (let df1 = map with_cost_efficiency df0;
          cost = iqr_fences quantile (map snd df1);
          battery = iqr_fences quantile (map (battery_capacity \<circ> fst) df1);
          df2 = filter (\<lambda>rp. fle (lower_bound cost) (snd rp) \<and>
                             fle (snd rp) (upper_bound cost) \<and>
                             fle (lower_bound battery) (battery_capacity (fst rp)) \<and>
                             fle (battery_capacity (fst rp)) (upper_bound battery)) df1;
          report =
            \<lparr> cost_upper_outliers = length (filter (\<lambda>rp. flt (upper_bound cost) (snd rp)) df2),
              cost_lower_outliers = length (filter (\<lambda>rp. flt (snd rp) (lower_bound cost)) df2),
              battery_upper_outliers =
                length (filter (\<lambda>rp. flt (upper_bound battery) (battery_capacity (fst rp))) df2),
              battery_lower_outliers =
                length (filter (\<lambda>rp. flt (battery_capacity (fst rp)) (lower_bound battery)) df2) \<rparr>;
          df3 = filter ev_dropna df2
      in (map mk_ev_row df3, report))"

definition ev_load_and_prepare_data ::
  "quantile_fn \<Rightarrow> filesystem \<Rightarrow> error + ev_row list \<times> ev_report" where
  "ev_load_and_prepare_data quantile fs =
     (case read_csv fs ''ev_charging_patterns.csv'' of
        Inl e \<Rightarrow> Inl e
      | Inr df \<Rightarrow>
         (case to_datetime (map charging_start_time df) of
            Inl e \<Rightarrow> Inl e
          | Inr _ \<Rightarrow>
             (case to_datetime (map charging_end_time df) of
                Inl e \<Rightarrow> Inl e
              | Inr _ \<Rightarrow> Inr (ev_prepare quantile df))))"

section \<open>The loader of temperature\_analysis\<close>

record temperature_row = session +
  ambient_temp :: fval
  energy_efficiency :: fval
  temp_range :: "string option"

record temperature_report =
  removed_temp :: int
  removed_efficiency :: int
  printed_bounds :: fences

text \<open>The degree sign of the five labels, as its two UTF-8 bytes.\<close>

definition degree :: string where
  "degree = [CHR 0xC2, CHR 0xB0]"

definition temp_range_bins :: "fval list" where
  "temp_range_bins = [NInf, Fin 0, Fin 10, Fin 20, Fin 30, Fin 40]"

definition temp_range_labels :: "string list" where
  "temp_range_labels =
     [''Below 0'' @ degree @ ''C'', ''0-10'' @ degree @ ''C'', ''10-20'' @ degree @ ''C'',
      ''20-30'' @ degree @ ''C'', ''30-40'' @ degree @ ''C'']"

definition with_energy_efficiency :: "session \<Rightarrow> session \<times> fval" where
  "with_energy_efficiency r = (r, fdiv (energy_consumed r) (distance_driven r))"

definition mk_temperature_row :: "session \<times> fval \<Rightarrow> temperature_row" where
  "mk_temperature_row rp =
     session.extend (fst rp)
       (temperature_row.fields (temperature (fst rp)) (snd rp)
          (cut_bins temp_range_bins temp_range_labels (temperature (fst rp))))"

text \<open>
  The temperature filter runs first and its count is the difference of the two lengths;
  the quartiles are taken over the rows it left; the efficiency filter and its count
  follow in the same way; the bucket column is added last. (The two columns of parsed
  timestamps the loader adds hold what \<open>charging_start_time\<close> and \<open>charging_end_time\<close>
  hold here.)
\<close>

definition temp_prepare ::
  "quantile_fn \<Rightarrow> session list \<Rightarrow> temperature_row list \<times> temperature_report" where
  "temp_prepare quantile df0 =
     (let df1 = map with_energy_efficiency df0;
          original_count = int (length df1);
          df2 = filter (\<lambda>rp. fle (temperature (fst rp)) (Fin 40)) df1;
          removed_t = original_count - int (length df2);
          f = iqr_fences quantile (map snd df2);
          original_count2 = int (length df2);
          df3 = filter (\<lambda>rp. fle (lower_bound f) (snd rp) \<and> fle (snd rp) (upper_bound f)) df2;
          removed_e = original_count2 - int (length df3)
      in (map mk_temperature_row df3,
          \<lparr> removed_temp = removed_t, removed_efficiency = removed_e, printed_bounds = f \<rparr>))"

definition load_and_clean_temperature_data ::
  "quantile_fn \<Rightarrow> filesystem \<Rightarrow> error + temperature_row list \<times> temperature_report" where
  "load_and_clean_temperature_data quantile fs =
     (case read_csv fs ''ev_charging_patterns.csv'' of
        Inl e \<Rightarrow> Inl e
      | Inr df \<Rightarrow>
         (case to_datetime (map charging_start_time df) of
            Inl e \<Rightarrow> Inl e
          | Inr _ \<Rightarrow>
             (case to_datetime (map charging_end_time df) of
                Inl e \<Rightarrow> Inl e
              | Inr _ \<Rightarrow> Inr (temp_prepare quantile df))))"

section \<open>The fences of the loaders\<close>

text \<open>
  Names for the fences each loader computes, as functions of the rows it read: the cost
  and battery fences from all rows, the energy-efficiency fences from the rows with a
  temperature of at most 40.
\<close>

definition ev_cost_fences :: "quantile_fn \<Rightarrow> session list \<Rightarrow> fences" where
  "ev_cost_fences quantile df0 = iqr_fences quantile (map snd (map with_cost_efficiency df0))"

definition ev_battery_fences :: "quantile_fn \<Rightarrow> session list \<Rightarrow> fences" where
  "ev_battery_fences quantile df0 = iqr_fences quantile (map battery_capacity df0)"

definition temp_filtered :: "session list \<Rightarrow> (session \<times> fval) list" where
  "temp_filtered df0 =
     filter (\<lambda>rp. fle (temperature (fst rp)) (Fin 40)) (map with_energy_efficiency df0)"

definition temp_efficiency_fences :: "quantile_fn \<Rightarrow> session list \<Rightarrow> fences" where
  "temp_efficiency_fences quantile df0 = iqr_fences quantile (map snd (temp_filtered df0))"

section \<open>Library statistics\<close>

text \<open>
  The statistics come from pandas, scipy and statsmodels. The analysis functions take
  them as the fields of one record, so what is proved holds whatever they compute. A
  test may raise, so the tests and \<open>qcut\<close> return an error or a value.
\<close>

type_synonym anova_table = "(string \<times> fval \<times> fval) list"

record stats_lib =
  lib_mean :: "fval list \<Rightarrow> fval"
  lib_median :: "fval list \<Rightarrow> fval"
  lib_std :: "fval list \<Rightarrow> fval"
  lib_round :: "nat \<Rightarrow> fval \<Rightarrow> fval"
  lib_corr :: "fval list \<Rightarrow> fval list \<Rightarrow> fval"
  lib_qcut :: "fval list \<Rightarrow> nat \<Rightarrow> string list \<Rightarrow> error + string option list"
  lib_two_way_anova :: "(fval \<times> string option \<times> string option) list \<Rightarrow> error + anova_table"
  lib_chi2_contingency :: "(string option \<times> string option) list \<Rightarrow> error + fval \<times> fval"
  lib_ttest_ind :: "fval list \<Rightarrow> fval list \<Rightarrow> error + fval \<times> fval"
  lib_f_oneway :: "fval list list \<Rightarrow> error + fval \<times> fval"

section \<open>Grouping\<close>

text \<open>
  \<open>Series.unique\<close>: the distinct values in order of first appearance, a missing value
  among them. \<open>level_values\<close> are the sorted keys of a \<open>groupby\<close>, which leaves out the
  rows whose key is missing. A group-by yields its non-empty groups in key order; with two
  keys the second may be categorical, and then its categories give the order.
\<close>

definition unique :: "'a list \<Rightarrow> 'a list" where
  "unique xs = rev (remdups (rev xs))"

definition getitem :: "'a list \<Rightarrow> nat \<Rightarrow> error + 'a" where
  "getitem xs i = (if i < length xs then Inr (xs ! i) else Inl IndexError)"

definition level_values :: "('r \<Rightarrow> 'k::linorder option) \<Rightarrow> 'r list \<Rightarrow> 'k list" where
  "level_values key df = sort (remdups (List.map_filter key df))"

definition groupby :: "'k list \<Rightarrow> ('r \<Rightarrow> 'k option) \<Rightarrow> 'r list \<Rightarrow> ('k \<times> 'r list) list" where
  "groupby keys key df =
     filter (\<lambda>g. snd g \<noteq> []) (map (\<lambda>k. (k, filter (\<lambda>r. key r = Some k) df)) keys)"

definition groupby2 ::
  "'a list \<Rightarrow> 'b list \<Rightarrow> ('r \<Rightarrow> 'a option) \<Rightarrow> ('r \<Rightarrow> 'b option) \<Rightarrow> 'r list \<Rightarrow>
   (('a \<times> 'b) \<times> 'r list) list" where
  "groupby2 keys1 keys2 key1 key2 df =
     filter (\<lambda>g. snd g \<noteq> [])
       (map (\<lambda>k. (k, filter (\<lambda>r. key1 r = Some (fst k) \<and> key2 r = Some (snd k)) df))
          (List.product keys1 keys2))"

definition agg_count :: "fval list \<Rightarrow> nat" where
  "agg_count col = length (filter (\<lambda>v. \<not> isna v) col)"

section \<open>analyze\_charging\_behavior\<close>

record user_pattern =
  pc_mean :: fval
  pc_median :: fval
  pc_std :: fval
  duration_mean :: fval
  energy_mean :: fval

record pattern =
  p_mean :: fval
  p_median :: fval
  p_count :: nat

record charging_behavior =
  user_patterns :: "(string \<times> user_pattern) list"
  day_patterns :: "((string \<times> string) \<times> pattern) list"
  time_patterns :: "((string \<times> string) \<times> pattern) list"

definition agg_pattern :: "stats_lib \<Rightarrow> charging_row list \<Rightarrow> pattern" where
  "agg_pattern lib g =
     \<lparr> p_mean = lib_round lib 2 (lib_mean lib (map percentage_charged g)),
       p_median = lib_round lib 2 (lib_median lib (map percentage_charged g)),
       p_count = agg_count (map percentage_charged g) \<rparr>"

definition analyze_charging_behavior :: "stats_lib \<Rightarrow> charging_row list \<Rightarrow> charging_behavior" where
  "analyze_charging_behavior lib df =
     \<lparr> user_patterns =
         map (\<lambda>g. (fst g,
                \<lparr> pc_mean = lib_round lib 2 (lib_mean lib (map percentage_charged (snd g))),
                  pc_median = lib_round lib 2 (lib_median lib (map percentage_charged (snd g))),
                  pc_std = lib_round lib 2 (lib_std lib (map percentage_charged (snd g))),
                  duration_mean = lib_round lib 2 (lib_mean lib (map charging_duration (snd g))),
                  energy_mean = lib_round lib 2 (lib_mean lib (map energy_consumed (snd g))) \<rparr>))
           (groupby (level_values user_type df) user_type df),
       day_patterns =
         map (\<lambda>g. (fst g, agg_pattern lib (snd g)))
           (groupby2 (level_values user_type df) (level_values day_of_week df)
              user_type day_of_week df),
       time_patterns =
         map (\<lambda>g. (fst g, agg_pattern lib (snd g)))
           (groupby2 (level_values user_type df) time_of_day_labels
              user_type time_of_day df) \<rparr>"

text \<open>The sum of the count column of a pattern table.\<close>

definition count_total :: "('k \<times> pattern) list \<Rightarrow> nat" where
  "count_total table = sum_list (map (p_count \<circ> snd) table)"

section \<open>Data frames as objects\<close>

text \<open>
  The analysis functions receive a reference to the frame the loader built. A frame is
  its rows and the columns assigned to it afterwards; the store maps references to
  frames. \<open>df[name] = col\<close> replaces the column of that name or appends a new one, in the
  object itself; \<open>df.copy()\<close> allocates a new object with the same content.
\<close>

datatype cell = Num fval | Txt "string option"

record 'r dataframe =
  rows :: "'r list"
  assigned :: "(string \<times> cell list) list"

type_synonym ref = nat

record 'r store =
  objs :: "ref \<Rightarrow> 'r dataframe"
  next_ref :: ref

definition new_frame :: "'r list \<Rightarrow> 'r dataframe" where
  "new_frame rs = \<lparr> rows = rs, assigned = [] \<rparr>"

definition setitem :: "'r store \<Rightarrow> ref \<Rightarrow> string \<Rightarrow> cell list \<Rightarrow> 'r store" where
  "setitem s df name col =
     s \<lparr> objs := (objs s) (df := (objs s df) \<lparr> assigned := AList.update name col (assigned (objs s df)) \<rparr>) \<rparr>"

definition copy :: "'r store \<Rightarrow> ref \<Rightarrow> 'r store \<times> ref" where
  "copy s df =
     (s \<lparr> objs := (objs s) (next_ref s := objs s df), next_ref := Suc (next_ref s) \<rparr>, next_ref s)"

section \<open>perform\_statistical\_tests of charging\_patterns\_analysis\<close>

record cp_tests =
  day_anova :: anova_table
  time_anova :: anova_table
  chi_square :: "fval \<times> fval"
  t_test :: "fval \<times> fval"

text \<open>\<open>series == value\<close>, row by row: a missing value equals nothing, not even itself.\<close>

definition series_eq :: "'a option \<Rightarrow> 'a option \<Rightarrow> bool" where
  "series_eq x u = (x \<noteq> None \<and> x = u)"

definition cp_run_tests :: "stats_lib \<Rightarrow> charging_row list \<Rightarrow> error + cp_tests" where
  "cp_run_tests lib rs =
     (case lib_two_way_anova lib (map (\<lambda>r. (percentage_charged r, user_type r, day_of_week r)) rs) of
        Inl e \<Rightarrow> Inl e
      | Inr day \<Rightarrow>
         (case lib_two_way_anova lib (map (\<lambda>r. (percentage_charged r, user_type r, time_of_day r)) rs) of
            Inl e \<Rightarrow> Inl e
          | Inr time \<Rightarrow>
             (case lib_chi2_contingency lib (map (\<lambda>r. (user_type r, time_of_day r)) rs) of
                Inl e \<Rightarrow> Inl e
              | Inr chi \<Rightarrow>
                 (let user_types = unique (map user_type rs) in
                  case getitem user_types 0 of
                    Inl e \<Rightarrow> Inl e
                  | Inr u0 \<Rightarrow>
                     (case getitem user_types 1 of
                        Inl e \<Rightarrow> Inl e
                      | Inr u1 \<Rightarrow>
                         (case lib_ttest_ind lib
                                 (map percentage_charged (filter (\<lambda>r. series_eq (user_type r) u0) rs))
                                 (map percentage_charged (filter (\<lambda>r. series_eq (user_type r) u1) rs)) of
                            Inl e \<Rightarrow> Inl e
                          | Inr t \<Rightarrow>
                             Inr \<lparr> day_anova = day, time_anova = time,
                                   chi_square = chi, t_test = t \<rparr>))))))"

text \<open>
  The function rebinds \<open>df\<close> to a copy, assigns the four alias columns to the copy and
  runs the tests on it.
\<close>

definition cp_perform_statistical_tests ::
  "stats_lib \<Rightarrow> charging_row store \<Rightarrow> ref \<Rightarrow> charging_row store \<times> (error + cp_tests)" where
  "cp_perform_statistical_tests lib s df0 =
     (let (s1, df) = copy s df0;
          rs = rows (objs s1 df);
          s2 = setitem s1 df ''percentage_charged'' (map (Num \<circ> percentage_charged) rs);
          s3 = setitem s2 df ''day_of_week'' (map (Txt \<circ> day_of_week) rs);
          s4 = setitem s3 df ''time_of_day'' (map (Txt \<circ> time_of_day) rs);
          s5 = setitem s4 df ''user_type'' (map (Txt \<circ> user_type) rs)
      in (s5, cp_run_tests lib (rows (objs s5 df))))"

section \<open>analyze\_age\_efficiency\_relationship of ev\_analysis\<close>

record grouped_stat =
  age_mean :: fval
  ce_mean :: fval
  ce_std :: fval
  ce_count :: nat
  capacity_mean :: fval

record age_efficiency =
  correlation :: fval
  model_correlations :: "(string \<times> fval) list"
  grouped_stats :: "((string \<times> string) \<times> grouped_stat) list"

definition capacity_labels :: "string list" where
  "capacity_labels = [''Q1'', ''Q2'', ''Q3'', ''Q4'']"

definition agg_grouped_stat :: "stats_lib \<Rightarrow> (ev_row \<times> string option) list \<Rightarrow> grouped_stat" where
  "agg_grouped_stat lib g =
     \<lparr> age_mean = lib_round lib 3 (lib_mean lib (map (vehicle_age \<circ> fst) g)),
       ce_mean = lib_round lib 3 (lib_mean lib (map (cost_efficiency \<circ> fst) g)),
       ce_std = lib_round lib 3 (lib_std lib (map (cost_efficiency \<circ> fst) g)),
       ce_count = agg_count (map (cost_efficiency \<circ> fst) g),
       capacity_mean = lib_round lib 3 (lib_mean lib (map (battery_capacity \<circ> fst) g)) \<rparr>"

text \<open>
  The quartile groups of battery capacity are assigned to the frame the caller passed,
  as the column \<open>battery_capacity_group\<close>, and the grouped statistics read it from there.
\<close>

definition analyze_age_efficiency_relationship ::
  "stats_lib \<Rightarrow> ev_row store \<Rightarrow> ref \<Rightarrow> ev_row store \<times> (error + age_efficiency)" where
  "analyze_age_efficiency_relationship lib s df =
     (let rs = rows (objs s df);
          corr = lib_corr lib (map vehicle_age rs) (map cost_efficiency rs);
          by_model =
            map (\<lambda>g. (fst g, lib_corr lib (map vehicle_age (snd g)) (map cost_efficiency (snd g))))
              (groupby (level_values vehicle_model rs) vehicle_model rs)
      in case lib_qcut lib (map battery_capacity rs) 4 capacity_labels of
           Inl e \<Rightarrow> (s, Inl e)
         | Inr groups \<Rightarrow>
            (let s' = setitem s df ''battery_capacity_group'' (map Txt groups);
                 labelled = zip rs groups;
                 stats =
                   map (\<lambda>g. (fst g, agg_grouped_stat lib (snd g)))
                     (groupby2 (level_values vehicle_model rs) capacity_labels
                        (vehicle_model \<circ> fst) snd labelled)
             in (s', Inr \<lparr> correlation = corr, model_correlations = by_model,
                           grouped_stats = stats \<rparr>)))"

section \<open>analyze\_temperature\_impact\<close>

record temperature_impact =
  ti_correlation :: fval
  temp_efficiency :: "(string \<times> fval) list"
  f_statistic :: fval
  p_value :: fval
  printed :: "string list"

text \<open>
  The one-way ANOVA over the temperature ranges runs when the column has at least two
  distinct values; otherwise both results are NaN and a warning is printed. (The
  descriptive statistics of the two columns, library aggregates, are left out.)
\<close>

definition analyze_temperature_impact ::
  "stats_lib \<Rightarrow> temperature_row list \<Rightarrow> error + temperature_impact" where
  "analyze_temperature_impact lib df =
     (let corr = lib_corr lib (map ambient_temp df) (map energy_efficiency df);
          by_range = groupby temp_range_labels temp_range df;
          means = map (\<lambda>g. (fst g, lib_mean lib (map energy_efficiency (snd g)))) by_range;
          ranges = unique (map temp_range df)
      in if 2 \<le> length ranges
         then (case lib_f_oneway lib (map (\<lambda>g. map energy_efficiency (snd g)) by_range) of
                 Inl e \<Rightarrow> Inl e
               | Inr fp \<Rightarrow>
                  Inr \<lparr> ti_correlation = corr, temp_efficiency = means,
                        f_statistic = fst fp, p_value = snd fp, printed = [] \<rparr>)
         else Inr \<lparr> ti_correlation = corr, temp_efficiency = means,
                    f_statistic = NaN, p_value = NaN,
                    printed = [''Warning: Insufficient temperature ranges for comparison''] \<rparr>)"

section \<open>Example data\<close>

text \<open>
  A file system that holds the CSV and nothing else, one well-formed session, and
  variations of it. The examples below evaluate the loaders on them.
\<close>

definition csv_only :: "session list \<Rightarrow> filesystem" where
  "csv_only df = (\<lambda>path. if path = ''ev_charging_patterns.csv'' then Some df else None)"

definition base_session :: session where
  "base_session =
     \<lparr> charging_start_time = Time \<lparr> ts_weekday = Monday, ts_hour = 6 \<rparr>,
       charging_end_time = Time \<lparr> ts_weekday = Monday, ts_hour = 8 \<rparr>,
       soc_start = Fin 20, soc_end = Fin 90, energy_consumed = Fin 10,
       charging_duration = Fin 2, distance_driven = Fin 100, charging_cost = Fin 10,
       battery_capacity = Fin 50, vehicle_age = Fin 2,
       vehicle_model = Some ''Tesla Model 3'', user_type = Some ''Commuter'',
       temperature = Fin 20 \<rparr>"

definition discharged_session :: session where
  "discharged_session = base_session \<lparr> soc_start := Fin 90, soc_end := Fin 10 \<rparr>"

definition at_hour :: "nat \<Rightarrow> session" where
  "at_hour h =
     base_session \<lparr> charging_start_time := Time \<lparr> ts_weekday = Monday, ts_hour = h \<rparr> \<rparr>"

definition priced :: "real \<Rightarrow> real \<Rightarrow> session" where
  "priced cost energy = base_session \<lparr> charging_cost := Fin cost, energy_consumed := Fin energy \<rparr>"

definition driven :: "real \<Rightarrow> real \<Rightarrow> session" where
  "driven energy distance =
     base_session \<lparr> energy_consumed := Fin energy, distance_driven := Fin distance \<rparr>"

definition zero_energy_sessions :: "session list" where
  "zero_energy_sessions = [priced 10 10, priced 20 10, priced 30 10, priced 5 0]"

definition six_priced_sessions :: "session list" where
  "six_priced_sessions =
     [priced 10 10, priced 20 10, priced 30 10, priced 40 10, priced 50 10, priced 5 0]"

definition five_priced_sessions :: "session list" where
  "five_priced_sessions =
     [priced 10 10, priced 20 10, priced 30 10, priced 40 10, priced 1000 10]"

definition big_battery_sessions :: "session list" where
  "big_battery_sessions =
     five_priced_sessions @ [(priced 20 10) \<lparr> battery_capacity := Fin 500 \<rparr>]"

definition hot_sessions :: "session list" where
  "hot_sessions =
     [driven 10 10, driven 20 10, driven 30 10, driven 40 10, driven 1000 10,
      (driven 50 10) \<lparr> temperature := Fin 45 \<rparr>]"

definition four_capacity_sessions :: "session list" where
  "four_capacity_sessions =
     [(priced 10 10) \<lparr> battery_capacity := Fin 40 \<rparr>,
      (priced 20 10) \<lparr> battery_capacity := Fin 50 \<rparr>,
      (priced 30 10) \<lparr> battery_capacity := Fin 60 \<rparr>,
      (priced 40 10) \<lparr> battery_capacity := Fin 70 \<rparr>]"

definition anonymous_session :: session where
  "anonymous_session = base_session \<lparr> user_type := None \<rparr>"

text \<open>A second file system: the same CSV beside another file.\<close>

definition other_file :: filesystem where
  "other_file = (csv_only [base_session]) (''notes.txt'' := Some [])"

text \<open>A store whose object \<open>0\<close> is the frame a loader returned.\<close>

definition holding :: "'r list \<Rightarrow> 'r store" where
  "holding rs = \<lparr> objs = (\<lambda>a. new_frame rs), next_ref = 1 \<rparr>"

text \<open>
  A stand-in for the library: every statistic is NaN, every test returns, and \<open>qcut\<close>
  gives the \<open>i\<close>-th row the \<open>i\<close>-th label, which is what the quartile groups of four
  increasing capacities are.
\<close>

definition example_lib :: stats_lib where
  "example_lib =
     \<lparr> lib_mean = (\<lambda>col. NaN), lib_median = (\<lambda>col. NaN), lib_std = (\<lambda>col. NaN),
       lib_round = (\<lambda>n v. v), lib_corr = (\<lambda>xs ys. NaN),
       lib_qcut = (\<lambda>col q labels. Inr (map Some (take (length col) labels))),
       lib_two_way_anova = (\<lambda>obs. Inr []),
       lib_chi2_contingency = (\<lambda>obs. Inr (NaN, NaN)),
       lib_ttest_ind = (\<lambda>xs ys. Inr (NaN, NaN)),
       lib_f_oneway = (\<lambda>groups. Inr (NaN, NaN)) \<rparr>"

section \<open>Basic facts\<close>

lemma fsub_Fin [simp]: "fsub (Fin x) (Fin y) = Fin (x - y)"
  by (simp add: fsub_def)

lemmas row_defs = session.extend_def session.truncate_def charging_row.fields_def
  ev_row.fields_def temperature_row.fields_def

lemma with_time_features_sel [simp]:
  "session.truncate (with_time_features rp) = fst rp"
  "percentage_charged (with_time_features rp) = snd rp"
  "hour (with_time_features rp) = dt_hour (charging_start_time (fst rp))"
  "day_of_week (with_time_features rp) = dt_day_name (charging_start_time (fst rp))"
  "time_of_day (with_time_features rp) =
     cut_bins time_of_day_bins time_of_day_labels (dt_hour (charging_start_time (fst rp)))"
  "soc_end (with_time_features rp) = soc_end (fst rp)"
  "soc_start (with_time_features rp) = soc_start (fst rp)"
  "charging_start_time (with_time_features rp) = charging_start_time (fst rp)"
  "user_type (with_time_features rp) = user_type (fst rp)"
  by (simp_all add: with_time_features_def Let_def row_defs)

lemma mk_ev_row_sel [simp]:
  "session.truncate (mk_ev_row rp) = fst rp"
  "cost_efficiency (mk_ev_row rp) = snd rp"
  "battery_capacity (mk_ev_row rp) = battery_capacity (fst rp)"
  "energy_consumed (mk_ev_row rp) = energy_consumed (fst rp)"
  "charging_cost (mk_ev_row rp) = charging_cost (fst rp)"
  "vehicle_age (mk_ev_row rp) = vehicle_age (fst rp)"
  "vehicle_model (mk_ev_row rp) = vehicle_model (fst rp)"
  by (simp_all add: mk_ev_row_def row_defs)

lemma mk_temperature_row_sel [simp]:
  "session.truncate (mk_temperature_row rp) = fst rp"
  "energy_efficiency (mk_temperature_row rp) = snd rp"
  "ambient_temp (mk_temperature_row rp) = temperature (fst rp)"
  "temp_range (mk_temperature_row rp) = cut_bins temp_range_bins temp_range_labels (temperature (fst rp))"
  "energy_consumed (mk_temperature_row rp) = energy_consumed (fst rp)"
  "distance_driven (mk_temperature_row rp) = distance_driven (fst rp)"
  by (simp_all add: mk_temperature_row_def row_defs)

lemma truncate_sel [simp]:
  "soc_start (session.truncate r) = soc_start r"
  "soc_end (session.truncate r) = soc_end r"
  by (simp_all add: session.truncate_def)

lemma cp_load_Inr:
  "cp_load_and_prepare_data fs = Inr out \<Longrightarrow> fs ''ev_charging_patterns.csv'' = Some raw \<Longrightarrow>
     fst out = fst (cp_prepare raw) \<and> snd out = snd (cp_prepare raw)"
  by (auto simp: cp_load_and_prepare_data_def read_csv_def split: option.splits sum.splits)

lemma ev_load_Inr:
  "ev_load_and_prepare_data q fs = Inr out \<Longrightarrow> fs ''ev_charging_patterns.csv'' = Some raw \<Longrightarrow>
     fst out = fst (ev_prepare q raw) \<and> snd out = snd (ev_prepare q raw)"
  by (auto simp: ev_load_and_prepare_data_def read_csv_def split: option.splits sum.splits)

lemma temp_load_Inr:
  "load_and_clean_temperature_data q fs = Inr out \<Longrightarrow> fs ''ev_charging_patterns.csv'' = Some raw \<Longrightarrow>
     fst out = fst (temp_prepare q raw) \<and> snd out = snd (temp_prepare q raw)"
  by (auto simp: load_and_clean_temperature_data_def read_csv_def split: option.splits sum.splits)

lemma csv_only_file [simp]: "csv_only df ''ev_charging_patterns.csv'' = Some df"
  by (simp add: csv_only_def)

lemma csv_only_loads:
  assumes "Unparseable \<notin> set (map charging_start_time df)"
    and "Unparseable \<notin> set (map charging_end_time df)"
  shows "cp_load_and_prepare_data (csv_only df) = Inr (cp_prepare df)"
    and "ev_load_and_prepare_data q (csv_only df) = Inr (ev_prepare q df)"
    and "load_and_clean_temperature_data q (csv_only df) = Inr (temp_prepare q df)"
  using assms
  by (simp_all add: cp_load_and_prepare_data_def ev_load_and_prepare_data_def
      load_and_clean_temperature_data_def read_csv_def csv_only_def to_datetime_def)

lemmas eval_quantile = iqr_fences_def quantile_linear_def sort_f_def isna_def Let_def lerp_def
  inf_of_sign_def fsub_def

lemmas eval_sessions = priced_def driven_def base_session_def with_cost_efficiency_def
  with_energy_efficiency_def

lemma fle_not_flt: "fle a b \<Longrightarrow> \<not> flt b a"
  by (cases a; cases b) simp_all

lemma ev_prepare_alt:
  "ev_prepare quantile raw =
     (let df1 = map with_cost_efficiency raw;
          cost = ev_cost_fences quantile raw;
          battery = ev_battery_fences quantile raw;
          df2 = filter (\<lambda>rp. fle (lower_bound cost) (snd rp) \<and>
                             fle (snd rp) (upper_bound cost) \<and>
                             fle (lower_bound battery) (battery_capacity (fst rp)) \<and>
                             fle (battery_capacity (fst rp)) (upper_bound battery)) df1;
          report =
            \<lparr> cost_upper_outliers = length (filter (\<lambda>rp. flt (upper_bound cost) (snd rp)) df2),
              cost_lower_outliers = length (filter (\<lambda>rp. flt (snd rp) (lower_bound cost)) df2),
              battery_upper_outliers =
                length (filter (\<lambda>rp. flt (upper_bound battery) (battery_capacity (fst rp))) df2),
              battery_lower_outliers =
                length (filter (\<lambda>rp. flt (battery_capacity (fst rp)) (lower_bound battery)) df2) \<rparr>;
          df3 = filter ev_dropna df2
      in (map mk_ev_row df3, report))"
proof -
  have b: "map (battery_capacity \<circ> fst) (map with_cost_efficiency raw) = map battery_capacity raw"
    by (simp add: with_cost_efficiency_def comp_def)
  show ?thesis
    unfolding ev_prepare_def ev_cost_fences_def ev_battery_fences_def Let_def b by (rule refl)
qed

lemma temp_prepare_alt:
  "temp_prepare quantile raw =
     (let df1 = map with_energy_efficiency raw;
          original_count = int (length df1);
          df2 = filter (\<lambda>rp. fle (temperature (fst rp)) (Fin 40)) df1;
          removed_t = original_count - int (length df2);
          f = temp_efficiency_fences quantile raw;
          original_count2 = int (length df2);
          df3 = filter (\<lambda>rp. fle (lower_bound f) (snd rp) \<and> fle (snd rp) (upper_bound f)) df2;
          removed_e = original_count2 - int (length df3)
      in (map mk_temperature_row df3,
          \<lparr> removed_temp = removed_t, removed_efficiency = removed_e, printed_bounds = f \<rparr>))"
  unfolding temp_prepare_def temp_efficiency_fences_def temp_filtered_def Let_def by (rule refl)

section \<open>Percentage charged\<close>

lemma cp_prepare_range:
  "r \<in> set (fst (cp_prepare df)) \<Longrightarrow>
     percentage_charged r = fsub (soc_end r) (soc_start r) \<and>
     fle (Fin 0) (percentage_charged r) \<and> fle (percentage_charged r) (Fin 100)"
  by (auto simp: cp_prepare_def Let_def with_percentage_charged_def)

text \<open>
  C6. Percentage charged is the end state of charge minus the start state of charge, and
  every record of the cleaned charging-patterns dataset has it in \<open>[0, 100]\<close>. A session
  read with start 20 and end 90 gets 70 and is in the cleaned dataset; one with start 90
  and end 10 gets \<open>-80\<close> and is not.
\<close>

theorem percentage_charged_range:
  assumes "cp_load_and_prepare_data fs = Inr (cleaned, report)"
    and "fs ''ev_charging_patterns.csv'' = Some raw"
  shows "(\<forall>r \<in> set cleaned.
            percentage_charged r = fsub (soc_end r) (soc_start r) \<and>
            fle (Fin 0) (percentage_charged r) \<and> fle (percentage_charged r) (Fin 100)) \<and>
         (\<forall>s \<in> set raw. soc_start s = Fin 20 \<and> soc_end s = Fin 90 \<longrightarrow>
            (\<exists>r \<in> set cleaned. session.truncate r = s \<and> percentage_charged r = Fin 70)) \<and>
         (\<forall>s \<in> set raw. soc_start s = Fin 90 \<and> soc_end s = Fin 10 \<longrightarrow>
            snd (with_percentage_charged s) = Fin (- 80) \<and>
            (\<forall>r \<in> set cleaned. session.truncate r \<noteq> s))"
proof -
  have cleaned: "cleaned = fst (cp_prepare raw)"
    using cp_load_Inr [OF assms] by simp
  have range: "\<forall>r \<in> set cleaned.
            percentage_charged r = fsub (soc_end r) (soc_start r) \<and>
            fle (Fin 0) (percentage_charged r) \<and> fle (percentage_charged r) (Fin 100)"
    using cleaned cp_prepare_range by blast
  have kept: "\<exists>r \<in> set cleaned. session.truncate r = s \<and> percentage_charged r = Fin 70"
    if "s \<in> set raw" "soc_start s = Fin 20" "soc_end s = Fin 90" for s
  proof -
    have "(s, Fin 70) \<in> set (filter (\<lambda>rp. fle (Fin 0) (snd rp) \<and> fle (snd rp) (Fin 100))
             (map with_percentage_charged raw))"
      using that by (force simp: with_percentage_charged_def)
    then have "with_time_features (s, Fin 70) \<in> set cleaned"
      unfolding cleaned cp_prepare_def Let_def by simp
    then show ?thesis by force
  qed
  have dropped: "snd (with_percentage_charged s) = Fin (- 80) \<and>
            (\<forall>r \<in> set cleaned. session.truncate r \<noteq> s)"
    if "soc_start s = Fin 90" "soc_end s = Fin 10" for s
  proof -
    have "snd (with_percentage_charged s) = Fin (- 80)"
      using that by (simp add: with_percentage_charged_def)
    moreover have "session.truncate r \<noteq> s" if "r \<in> set cleaned" for r
    proof
      assume eq: "session.truncate r = s"
      have "soc_start r = Fin 90" "soc_end r = Fin 10"
        using eq \<open>soc_start s = Fin 90\<close> \<open>soc_end s = Fin 10\<close> truncate_sel [of r] by auto
      with range that show False by auto
    qed
    ultimately show ?thesis by blast
  qed
  from range kept dropped show ?thesis by blast
qed

theorem percentage_charged_range_witness:
  "cp_load_and_prepare_data (csv_only [base_session, discharged_session]) =
     Inr (cp_prepare [base_session, discharged_session]) \<and>
   map percentage_charged (fst (cp_prepare [base_session, discharged_session])) = [Fin 70] \<and>
   map session.truncate (fst (cp_prepare [base_session, discharged_session])) = [base_session] \<and>
   snd (with_percentage_charged discharged_session) = Fin (- 80)"
proof -
  let ?df = "[base_session, discharged_session]"
  have l: "cp_load_and_prepare_data (csv_only ?df) = Inr (fst (cp_prepare ?df), snd (cp_prepare ?df))"
    by (simp add: csv_only_loads base_session_def discharged_session_def)
  have f: "csv_only ?df ''ev_charging_patterns.csv'' = Some ?df"
    by (simp add: csv_only_def)
  have c: "fst (cp_prepare ?df) = [with_time_features (base_session, Fin 70)]"
    by (simp add: cp_prepare_def with_percentage_charged_def base_session_def discharged_session_def)
  from percentage_charged_range [OF l f] l c show ?thesis
    by (simp add: discharged_session_def base_session_def)
qed

section \<open>Time of day\<close>

lemma cut_time_of_day:
  "cut_bins time_of_day_bins time_of_day_labels (Fin (real h)) =
     Some (if h \<le> 6 then ''Night'' else if h \<le> 12 then ''Morning''
           else if h \<le> 18 then ''Afternoon'' else ''Evening'')"
  by (simp add: time_of_day_bins_def time_of_day_labels_def)

lemma cp_prepare_time_of_day:
  assumes "r \<in> set (fst (cp_prepare raw))" and "charging_start_time r = Time t"
  shows "time_of_day r =
     Some (if ts_hour t \<le> 6 then ''Night'' else if ts_hour t \<le> 12 then ''Morning''
           else if ts_hour t \<le> 18 then ''Afternoon'' else ''Evening'')"
proof -
  from assms(1) obtain rp where "r = with_time_features rp"
    by (auto simp: cp_prepare_def Let_def)
  with assms(2) show ?thesis
    by (simp add: dt_hour_def cut_time_of_day)
qed

text \<open>
  C2, as amended. The bins of \<open>pd.cut\<close> are closed on the right: for every record of the
  cleaned charging-patterns dataset with a start time, the bucket is Night if and only if
  the hour is at most 6, Morning if and only if it is in \<open>(6, 12]\<close>, Afternoon if and only
  if it is in \<open>(12, 18]\<close>, and Evening if and only if it is above 18.
\<close>

theorem time_of_day_right_closed:
  assumes "cp_load_and_prepare_data fs = Inr (cleaned, report)"
    and "fs ''ev_charging_patterns.csv'' = Some raw"
    and "r \<in> set cleaned"
    and "charging_start_time r = Time t"
  shows "(time_of_day r = Some ''Night'' \<longleftrightarrow> ts_hour t \<le> 6) \<and>
         (time_of_day r = Some ''Morning'' \<longleftrightarrow> 6 < ts_hour t \<and> ts_hour t \<le> 12) \<and>
         (time_of_day r = Some ''Afternoon'' \<longleftrightarrow> 12 < ts_hour t \<and> ts_hour t \<le> 18) \<and>
         (time_of_day r = Some ''Evening'' \<longleftrightarrow> 18 < ts_hour t)"
proof -
  from cp_load_Inr [OF assms(1,2)] assms(3) have "r \<in> set (fst (cp_prepare raw))" by simp
  from cp_prepare_time_of_day [OF this assms(4)] show ?thesis by simp
qed

theorem time_of_day_right_closed_witness:
  "cp_load_and_prepare_data (csv_only [at_hour 12]) = Inr (cp_prepare [at_hour 12]) \<and>
   csv_only [at_hour 12] ''ev_charging_patterns.csv'' = Some [at_hour 12] \<and>
   with_time_features (at_hour 12, Fin 70) \<in> set (fst (cp_prepare [at_hour 12])) \<and>
   charging_start_time (with_time_features (at_hour 12, Fin 70)) =
     Time \<lparr> ts_weekday = Monday, ts_hour = 12 \<rparr> \<and>
   time_of_day (with_time_features (at_hour 12, Fin 70)) = Some ''Morning''"
proof -
  let ?df = "[at_hour 12]" and ?r = "with_time_features (at_hour 12, Fin 70)"
  have l: "cp_load_and_prepare_data (csv_only ?df) = Inr (fst (cp_prepare ?df), snd (cp_prepare ?df))"
    by (simp add: csv_only_loads at_hour_def base_session_def)
  have f: "csv_only ?df ''ev_charging_patterns.csv'' = Some ?df" by simp
  have m: "?r \<in> set (fst (cp_prepare ?df))"
    by (simp add: cp_prepare_def with_percentage_charged_def at_hour_def base_session_def)
  have t: "charging_start_time ?r = Time \<lparr> ts_weekday = Monday, ts_hour = 12 \<rparr>"
    by (simp add: at_hour_def)
  from time_of_day_right_closed [OF l f m t] l f m t show ?thesis by simp
qed

text \<open>
  The claim as stated puts hour 6 in Morning, hour 12 in Afternoon and hour 18 in Evening.
  The loader puts them in Night, Morning and Afternoon.
\<close>

theorem hour_six_is_night:
  "map time_of_day (fst (cp_prepare [at_hour 6, at_hour 12, at_hour 18])) =
     [Some ''Night'', Some ''Morning'', Some ''Afternoon'']"
  by (simp add: cp_prepare_def with_percentage_charged_def at_hour_def base_session_def
      dt_hour_def time_of_day_bins_def time_of_day_labels_def)

section \<open>Reported counts\<close>

text \<open>
  The two counts of the charging loader and the four of the cost-efficiency loader are
  taken from the frame after the filter, so they are zero on every input. The temperature
  loader takes the difference of the lengths before and after.
\<close>

lemma cp_report_zero: "snd (cp_prepare raw) = \<lparr> removed_negative = 0, removed_above_100 = 0 \<rparr>"
  by (auto simp: cp_prepare_def Let_def filter_empty_conv dest: fle_not_flt)

lemma ev_report_zero:
  "snd (ev_prepare quantile raw) =
     \<lparr> cost_upper_outliers = 0, cost_lower_outliers = 0,
       battery_upper_outliers = 0, battery_lower_outliers = 0 \<rparr>"
  by (auto simp: ev_prepare_alt Let_def filter_empty_conv dest: fle_not_flt)

lemma temp_report_counts:
  "removed_temp (snd (temp_prepare quantile raw)) =
     int (length (filter (\<lambda>s. \<not> fle (temperature s) (Fin 40)) raw))"
proof -
  have "length (filter (\<lambda>s. fle (temperature s) (Fin 40)) raw) +
        length (filter (\<lambda>s. \<not> fle (temperature s) (Fin 40)) raw) = length raw"
    by (rule sum_length_filter_compl)
  moreover have "length (filter (\<lambda>rp. fle (temperature (fst rp)) (Fin 40)) (map with_energy_efficiency raw)) =
      length (filter (\<lambda>s. fle (temperature s) (Fin 40)) raw)"
    by (induction raw) (simp_all add: with_energy_efficiency_def)
  ultimately show ?thesis
    by (simp add: temp_prepare_alt Let_def)
qed

text \<open>
  C4. Each loader reports, for each filtering step, the number of rows the step removed.
  The charging loader does not: on a file with one session charged from 20 to 90 and one
  from 90 to 10, the filter removes the second, whose percentage charged is below 0, and
  the reported count of negative values is 0.
\<close>

theorem removed_negative_reported_as_zero:
  "cp_load_and_prepare_data (csv_only [base_session, discharged_session]) =
     Inr ([with_time_features (base_session, Fin 70)],
          \<lparr> removed_negative = 0, removed_above_100 = 0 \<rparr>) \<and>
   length (filter (\<lambda>rp. flt (snd rp) (Fin 0))
             (map with_percentage_charged [base_session, discharged_session])) = 1"
  by (simp add: csv_only_loads base_session_def discharged_session_def)
     (simp add: cp_prepare_def with_percentage_charged_def)

section \<open>IQR fences\<close>

lemma ev_prepare_fences:
  "r \<in> set (fst (ev_prepare q raw)) \<Longrightarrow>
     in_fences (ev_cost_fences q raw) (cost_efficiency r) \<and>
     in_fences (ev_battery_fences q raw) (battery_capacity r)"
  by (auto simp: ev_prepare_alt Let_def in_fences_def)

lemma temp_prepare_fences:
  "r \<in> set (fst (temp_prepare q raw)) \<Longrightarrow>
     in_fences (temp_efficiency_fences q raw) (energy_efficiency r)"
  by (auto simp: temp_prepare_alt Let_def in_fences_def)

lemma hot_fences:
  "temp_efficiency_fences quantile_linear hot_sessions =
     \<lparr> lower_bound = Fin (- 1), upper_bound = Fin 7 \<rparr>"
  by (simp add: temp_efficiency_fences_def temp_filtered_def hot_sessions_def eval_sessions)
     (simp add: eval_quantile)

lemma hot_cleaned:
  "map energy_efficiency (fst (temp_prepare quantile_linear hot_sessions)) =
     [Fin 1, Fin 2, Fin 3, Fin 4]"
  by (simp add: temp_prepare_alt Let_def hot_fences)
     (simp add: hot_sessions_def eval_sessions)

lemma big_battery_fences:
  "ev_cost_fences quantile_linear big_battery_sessions =
     \<lparr> lower_bound = Fin (- (5/8)), upper_bound = Fin (51/8) \<rparr>"
  "ev_battery_fences quantile_linear big_battery_sessions =
     \<lparr> lower_bound = Fin 50, upper_bound = Fin 50 \<rparr>"
  by (simp add: ev_cost_fences_def ev_battery_fences_def big_battery_sessions_def
        five_priced_sessions_def eval_sessions,
      simp add: eval_quantile)+

text \<open>
  C5. Every record of a cleaned dataset that went through an IQR filter has its ratio
  within \<open>[Q1 - 1.5 IQR, Q3 + 1.5 IQR]\<close>: energy efficiency within the fences computed
  from the rows that survived the temperature filter, cost efficiency within the fences
  computed from the rows as read. The energy-efficiency fences do not depend on the
  charging cost, from which the cost-efficiency fences are computed.
\<close>

theorem efficiency_within_iqr_fences:
  assumes "fs ''ev_charging_patterns.csv'' = Some raw"
  shows "(\<forall>cleaned report. load_and_clean_temperature_data quantile fs = Inr (cleaned, report) \<longrightarrow>
            (\<forall>r \<in> set cleaned.
               in_fences
                 (iqr_fences quantile
                    (map snd (filter (\<lambda>rp. fle (temperature (fst rp)) (Fin 40))
                                (map with_energy_efficiency raw))))
                 (energy_efficiency r))) \<and>
         (\<forall>cleaned report. ev_load_and_prepare_data quantile fs = Inr (cleaned, report) \<longrightarrow>
            (\<forall>r \<in> set cleaned.
               in_fences (iqr_fences quantile (map (snd \<circ> with_cost_efficiency) raw))
                 (cost_efficiency r))) \<and>
         temp_efficiency_fences quantile (map (charging_cost_update c) raw) =
           temp_efficiency_fences quantile raw"
proof (intro conjI allI impI)
  fix cleaned report
  assume "load_and_clean_temperature_data quantile fs = Inr (cleaned, report)"
  from temp_load_Inr [OF this assms] have "cleaned = fst (temp_prepare quantile raw)" by simp
  then show "\<forall>r \<in> set cleaned.
               in_fences
                 (iqr_fences quantile
                    (map snd (filter (\<lambda>rp. fle (temperature (fst rp)) (Fin 40))
                                (map with_energy_efficiency raw))))
                 (energy_efficiency r)"
    using temp_prepare_fences [of _ quantile raw]
    by (simp add: temp_efficiency_fences_def temp_filtered_def)
next
  fix cleaned report
  assume "ev_load_and_prepare_data quantile fs = Inr (cleaned, report)"
  from ev_load_Inr [OF this assms] have "cleaned = fst (ev_prepare quantile raw)" by simp
  then show "\<forall>r \<in> set cleaned.
               in_fences (iqr_fences quantile (map (snd \<circ> with_cost_efficiency) raw))
                 (cost_efficiency r)"
    using ev_prepare_fences [of _ quantile raw] by (simp add: ev_cost_fences_def)
next
  have "map snd (temp_filtered (map (charging_cost_update c) raw)) = map snd (temp_filtered raw)"
    by (induction raw) (simp_all add: temp_filtered_def with_energy_efficiency_def)
  then show "temp_efficiency_fences quantile (map (charging_cost_update c) raw) =
           temp_efficiency_fences quantile raw"
    by (simp add: temp_efficiency_fences_def)
qed

theorem efficiency_within_iqr_fences_witness:
  "csv_only hot_sessions ''ev_charging_patterns.csv'' = Some hot_sessions \<and>
   load_and_clean_temperature_data quantile_linear (csv_only hot_sessions) =
     Inr (temp_prepare quantile_linear hot_sessions) \<and>
   ev_load_and_prepare_data quantile_linear (csv_only hot_sessions) =
     Inr (ev_prepare quantile_linear hot_sessions) \<and>
   map energy_efficiency (fst (temp_prepare quantile_linear hot_sessions)) =
     [Fin 1, Fin 2, Fin 3, Fin 4] \<and>
   list_all (in_fences \<lparr> lower_bound = Fin (- 1), upper_bound = Fin 7 \<rparr>)
     (map energy_efficiency (fst (temp_prepare quantile_linear hot_sessions)))"
proof -
  have f: "csv_only hot_sessions ''ev_charging_patterns.csv'' = Some hot_sessions" by simp
  have t: "load_and_clean_temperature_data quantile_linear (csv_only hot_sessions) =
     Inr (fst (temp_prepare quantile_linear hot_sessions),
          snd (temp_prepare quantile_linear hot_sessions))"
    by (simp add: csv_only_loads hot_sessions_def eval_sessions)
  have e: "ev_load_and_prepare_data quantile_linear (csv_only hot_sessions) =
     Inr (ev_prepare quantile_linear hot_sessions)"
    by (simp add: csv_only_loads hot_sessions_def eval_sessions)
  from efficiency_within_iqr_fences [where fs = "csv_only hot_sessions" and raw = hot_sessions
      and quantile = quantile_linear, OF f] t
  have "\<forall>r \<in> set (fst (temp_prepare quantile_linear hot_sessions)).
          in_fences (temp_efficiency_fences quantile_linear hot_sessions) (energy_efficiency r)"
    unfolding temp_efficiency_fences_def temp_filtered_def by blast
  then have "list_all (in_fences \<lparr> lower_bound = Fin (- 1), upper_bound = Fin 7 \<rparr>)
     (map energy_efficiency (fst (temp_prepare quantile_linear hot_sessions)))"
    by (simp add: hot_fences list_all_iff)
  with f t e hot_cleaned show ?thesis by simp
qed

text \<open>
  C10. The cost-efficiency loader also filters on battery capacity: both pairs of fences
  are computed from the dataset as read, before any row is removed, and one mask applies
  both, so every record of the cleaned dataset lies within both pairs.
\<close>

theorem cost_and_battery_fences:
  assumes "ev_load_and_prepare_data quantile fs = Inr (cleaned, report)"
    and "fs ''ev_charging_patterns.csv'' = Some raw"
    and "r \<in> set cleaned"
  shows "in_fences (iqr_fences quantile (map (snd \<circ> with_cost_efficiency) raw))
           (cost_efficiency r) \<and>
         in_fences (iqr_fences quantile (map battery_capacity raw)) (battery_capacity r)"
proof -
  from ev_load_Inr [OF assms(1,2)] have "cleaned = fst (ev_prepare quantile raw)" by simp
  with assms(3) ev_prepare_fences [of r quantile raw] show ?thesis
    by (simp add: ev_cost_fences_def ev_battery_fences_def)
qed

theorem cost_and_battery_fences_witness:
  "ev_load_and_prepare_data quantile_linear (csv_only big_battery_sessions) =
     Inr (ev_prepare quantile_linear big_battery_sessions) \<and>
   csv_only big_battery_sessions ''ev_charging_patterns.csv'' = Some big_battery_sessions \<and>
   mk_ev_row (priced 10 10, Fin 1) \<in> set (fst (ev_prepare quantile_linear big_battery_sessions)) \<and>
   in_fences \<lparr> lower_bound = Fin (- (5/8)), upper_bound = Fin (51/8) \<rparr>
     (cost_efficiency (mk_ev_row (priced 10 10, Fin 1))) \<and>
   in_fences \<lparr> lower_bound = Fin 50, upper_bound = Fin 50 \<rparr>
     (battery_capacity (mk_ev_row (priced 10 10, Fin 1)))"
proof -
  let ?df = big_battery_sessions
  have l: "ev_load_and_prepare_data quantile_linear (csv_only ?df) =
     Inr (fst (ev_prepare quantile_linear ?df), snd (ev_prepare quantile_linear ?df))"
    by (simp add: csv_only_loads big_battery_sessions_def five_priced_sessions_def eval_sessions)
  have f: "csv_only ?df ''ev_charging_patterns.csv'' = Some ?df" by simp
  have m: "mk_ev_row (priced 10 10, Fin 1) \<in> set (fst (ev_prepare quantile_linear ?df))"
    by (simp add: ev_prepare_alt Let_def big_battery_fences)
       (simp add: big_battery_sessions_def five_priced_sessions_def eval_sessions ev_dropna_def
          isna_def)
  from cost_and_battery_fences [OF l f m] l f m show ?thesis
    using big_battery_fences by (simp add: ev_cost_fences_def ev_battery_fences_def)
qed

section \<open>Division by zero\<close>

lemma ev_prepare_ratio:
  "r \<in> set (fst (ev_prepare q raw)) \<Longrightarrow>
     cost_efficiency r = fdiv (charging_cost r) (energy_consumed r)"
  by (auto simp: ev_prepare_alt Let_def with_cost_efficiency_def)

lemma temp_prepare_ratio:
  "r \<in> set (fst (temp_prepare q raw)) \<Longrightarrow>
     energy_efficiency r = fdiv (energy_consumed r) (distance_driven r)"
  by (auto simp: temp_prepare_alt Let_def with_energy_efficiency_def)

lemma fdiv_zero: "fdiv a (Fin 0) = NaN \<or> fdiv a (Fin 0) = PInf \<or> fdiv a (Fin 0) = NInf"
  by (cases a) (auto simp: inf_of_sign_def)

lemma in_fences_NaN [simp]: "\<not> in_fences f NaN"
  by (cases "lower_bound f") (simp_all add: in_fences_def)

lemma in_fences_PInf: "in_fences f PInf \<Longrightarrow> upper_bound f = PInf"
  by (cases "upper_bound f"; cases "lower_bound f") (simp_all add: in_fences_def)

lemma in_fences_NInf: "in_fences f NInf \<Longrightarrow> lower_bound f = NInf"
  by (cases "upper_bound f"; cases "lower_bound f") (simp_all add: in_fences_def)

lemma zero_denominator_fences:
  assumes "in_fences f (fdiv a (Fin 0))"
  shows "upper_bound f = PInf \<or> lower_bound f = NInf"
  using assms fdiv_zero [of a] in_fences_PInf [of f] in_fences_NInf [of f] by auto

lemma zero_energy_fences:
  "ev_cost_fences quantile_linear zero_energy_sessions = \<lparr> lower_bound = NInf, upper_bound = PInf \<rparr>"
  "ev_battery_fences quantile_linear zero_energy_sessions = \<lparr> lower_bound = Fin 50, upper_bound = Fin 50 \<rparr>"
  by (simp add: ev_cost_fences_def ev_battery_fences_def zero_energy_sessions_def eval_sessions inf_of_sign_def,
      simp add: eval_quantile)+

lemma six_priced_fences:
  "ev_cost_fences quantile_linear six_priced_sessions = \<lparr> lower_bound = Fin (- (3/2)), upper_bound = Fin (17/2) \<rparr>"
  "ev_battery_fences quantile_linear six_priced_sessions = \<lparr> lower_bound = Fin 50, upper_bound = Fin 50 \<rparr>"
  by (simp add: ev_cost_fences_def ev_battery_fences_def six_priced_sessions_def eval_sessions inf_of_sign_def,
      simp add: eval_quantile)+

text \<open>
  C7, as amended. A ratio with a zero denominator is NaN or an infinity; no guard precedes
  the division. When the upper fence is not plus infinity and the lower fence is not
  minus infinity, the IQR filter excludes every such record, so that no record of the
  cleaned dataset has a zero denominator.
\<close>

theorem zero_denominator_excluded_by_finite_fences:
  assumes "fs ''ev_charging_patterns.csv'' = Some raw"
  shows "(\<forall>cleaned report. ev_load_and_prepare_data quantile fs = Inr (cleaned, report) \<longrightarrow>
            upper_bound (iqr_fences quantile (map (snd \<circ> with_cost_efficiency) raw)) \<noteq> PInf \<longrightarrow>
            lower_bound (iqr_fences quantile (map (snd \<circ> with_cost_efficiency) raw)) \<noteq> NInf \<longrightarrow>
            (\<forall>r \<in> set cleaned. energy_consumed r \<noteq> Fin 0)) \<and>
         (\<forall>cleaned report. load_and_clean_temperature_data quantile fs = Inr (cleaned, report) \<longrightarrow>
            upper_bound (temp_efficiency_fences quantile raw) \<noteq> PInf \<longrightarrow>
            lower_bound (temp_efficiency_fences quantile raw) \<noteq> NInf \<longrightarrow>
            (\<forall>r \<in> set cleaned. distance_driven r \<noteq> Fin 0)) \<and>
         (\<forall>s \<in> set raw.
            (energy_consumed s = Fin 0 \<longrightarrow> snd (with_cost_efficiency s) \<in> {NaN, PInf, NInf}) \<and>
            (distance_driven s = Fin 0 \<longrightarrow> snd (with_energy_efficiency s) \<in> {NaN, PInf, NInf}))"
proof (intro conjI allI impI ballI)
  fix cleaned report r
  assume load: "ev_load_and_prepare_data quantile fs = Inr (cleaned, report)"
    and up: "upper_bound (iqr_fences quantile (map (snd \<circ> with_cost_efficiency) raw)) \<noteq> PInf"
    and lo: "lower_bound (iqr_fences quantile (map (snd \<circ> with_cost_efficiency) raw)) \<noteq> NInf"
    and r: "r \<in> set cleaned"
  from ev_load_Inr [OF load assms] r have mem: "r \<in> set (fst (ev_prepare quantile raw))" by simp
  show "energy_consumed r \<noteq> Fin 0"
  proof
    assume "energy_consumed r = Fin 0"
    with ev_prepare_ratio [OF mem] ev_prepare_fences [OF mem]
    have "in_fences (ev_cost_fences quantile raw) (fdiv (charging_cost r) (Fin 0))" by simp
    from zero_denominator_fences [OF this] up lo show False
      by (simp add: ev_cost_fences_def)
  qed
next
  fix cleaned report r
  assume load: "load_and_clean_temperature_data quantile fs = Inr (cleaned, report)"
    and up: "upper_bound (temp_efficiency_fences quantile raw) \<noteq> PInf"
    and lo: "lower_bound (temp_efficiency_fences quantile raw) \<noteq> NInf"
    and r: "r \<in> set cleaned"
  from temp_load_Inr [OF load assms] r have mem: "r \<in> set (fst (temp_prepare quantile raw))" by simp
  show "distance_driven r \<noteq> Fin 0"
  proof
    assume "distance_driven r = Fin 0"
    with temp_prepare_ratio [OF mem] temp_prepare_fences [OF mem]
    have "in_fences (temp_efficiency_fences quantile raw) (fdiv (energy_consumed r) (Fin 0))" by simp
    from zero_denominator_fences [OF this] up lo show False by simp
  qed
next
  fix s :: session assume "energy_consumed s = Fin 0"
  then show "snd (with_cost_efficiency s) \<in> {NaN, PInf, NInf}"
    using fdiv_zero [of "charging_cost s"] by (auto simp: with_cost_efficiency_def)
next
  fix s :: session assume "distance_driven s = Fin 0"
  then show "snd (with_energy_efficiency s) \<in> {NaN, PInf, NInf}"
    using fdiv_zero [of "energy_consumed s"] by (auto simp: with_energy_efficiency_def)
qed

theorem zero_denominator_excluded_witness:
  "csv_only six_priced_sessions ''ev_charging_patterns.csv'' = Some six_priced_sessions \<and>
   ev_load_and_prepare_data quantile_linear (csv_only six_priced_sessions) =
     Inr (ev_prepare quantile_linear six_priced_sessions) \<and>
   iqr_fences quantile_linear (map (snd \<circ> with_cost_efficiency) six_priced_sessions) =
     \<lparr> lower_bound = Fin (- (3/2)), upper_bound = Fin (17/2) \<rparr> \<and>
   Fin 0 \<in> set (map energy_consumed six_priced_sessions) \<and>
   Fin 0 \<notin> set (map energy_consumed (fst (ev_prepare quantile_linear six_priced_sessions)))"
proof -
  let ?df = six_priced_sessions
  have f: "csv_only ?df ''ev_charging_patterns.csv'' = Some ?df" by simp
  have l: "ev_load_and_prepare_data quantile_linear (csv_only ?df) =
     Inr (fst (ev_prepare quantile_linear ?df), snd (ev_prepare quantile_linear ?df))"
    by (simp add: csv_only_loads six_priced_sessions_def eval_sessions)
  have b: "iqr_fences quantile_linear (map (snd \<circ> with_cost_efficiency) ?df) =
     \<lparr> lower_bound = Fin (- (3/2)), upper_bound = Fin (17/2) \<rparr>"
    using six_priced_fences(1) by (simp add: ev_cost_fences_def)
  have z: "Fin 0 \<in> set (map energy_consumed ?df)"
    by (simp add: six_priced_sessions_def eval_sessions)
  note th = zero_denominator_excluded_by_finite_fences [where fs = "csv_only ?df" and raw = ?df
      and quantile = quantile_linear, OF f]
  from conjunct1 [OF th] l
  have "upper_bound (iqr_fences quantile_linear (map (snd \<circ> with_cost_efficiency) ?df)) \<noteq> PInf \<longrightarrow>
        lower_bound (iqr_fences quantile_linear (map (snd \<circ> with_cost_efficiency) ?df)) \<noteq> NInf \<longrightarrow>
        (\<forall>r \<in> set (fst (ev_prepare quantile_linear ?df)). energy_consumed r \<noteq> Fin 0)"
    by blast
  with b have "\<forall>r \<in> set (fst (ev_prepare quantile_linear ?df)). energy_consumed r \<noteq> Fin 0"
    by simp
  then have "Fin 0 \<notin> set (map energy_consumed (fst (ev_prepare quantile_linear ?df)))"
    by auto
  with f l b z show ?thesis by simp
qed

text \<open>
  The claim as stated fails when a quartile is infinite. Of four sessions with cost
  efficiencies 1, 2, 3 and one with zero energy consumed, the third quartile is infinite,
  the fences are minus and plus infinity, and the session with zero energy stays.
\<close>

theorem zero_energy_survives:
  "map energy_consumed (fst (ev_prepare quantile_linear zero_energy_sessions)) =
     [Fin 10, Fin 10, Fin 10, Fin 0]"
  by (simp add: ev_prepare_alt Let_def zero_energy_fences)
     (simp add: zero_energy_sessions_def eval_sessions inf_of_sign_def ev_dropna_def isna_def)

section \<open>Determinism\<close>

text \<open>
  C9. Each loader is a function of the content of the CSV file alone: on two file
  systems that hold the same \<open>ev_charging_patterns.csv\<close> it returns the same result, the
  same cleaned rows in the same order with the same derived values, or the same error.
\<close>

theorem loaders_read_only_the_csv:
  assumes "fs ''ev_charging_patterns.csv'' = fs' ''ev_charging_patterns.csv''"
  shows "cp_load_and_prepare_data fs = cp_load_and_prepare_data fs' \<and>
         ev_load_and_prepare_data quantile fs = ev_load_and_prepare_data quantile fs' \<and>
         load_and_clean_temperature_data quantile fs =
           load_and_clean_temperature_data quantile fs'"
  using assms
  by (simp add: cp_load_and_prepare_data_def ev_load_and_prepare_data_def
      load_and_clean_temperature_data_def read_csv_def)

theorem loaders_read_only_the_csv_witness:
  "csv_only [base_session] ''ev_charging_patterns.csv'' = other_file ''ev_charging_patterns.csv'' \<and>
   csv_only [base_session] ''notes.txt'' \<noteq> other_file ''notes.txt'' \<and>
   cp_load_and_prepare_data (csv_only [base_session]) = cp_load_and_prepare_data other_file \<and>
   load_and_clean_temperature_data quantile_linear (csv_only [base_session]) =
     load_and_clean_temperature_data quantile_linear other_file"
proof -
  have h: "csv_only [base_session] ''ev_charging_patterns.csv'' = other_file ''ev_charging_patterns.csv''"
    by (simp add: other_file_def csv_only_def)
  have d: "csv_only [base_session] ''notes.txt'' \<noteq> other_file ''notes.txt''"
    by (simp add: other_file_def csv_only_def)
  from loaders_read_only_the_csv [where fs = "csv_only [base_session]" and fs' = other_file
      and quantile = quantile_linear, OF h] h d show ?thesis by simp
qed

section \<open>The frame after an analysis\<close>

lemma update_fresh:
  "name \<notin> fst ` set al \<Longrightarrow> AList.update name col al = al @ [(name, col)]"
  by (induction al) auto

lemma four_capacity_fences:
  "ev_cost_fences quantile_linear four_capacity_sessions = \<lparr> lower_bound = Fin (- (1/2)), upper_bound = Fin (11/2) \<rparr>"
  "ev_battery_fences quantile_linear four_capacity_sessions = \<lparr> lower_bound = Fin 25, upper_bound = Fin 85 \<rparr>"
  by (simp add: ev_cost_fences_def ev_battery_fences_def four_capacity_sessions_def eval_sessions,
      simp add: eval_quantile)+

lemma four_capacity_cleaned:
  "map battery_capacity (fst (ev_prepare quantile_linear four_capacity_sessions)) =
     [Fin 40, Fin 50, Fin 60, Fin 70]"
  by (simp add: ev_prepare_alt Let_def four_capacity_fences)
     (simp add: four_capacity_sessions_def eval_sessions ev_dropna_def isna_def)

text \<open>
  The statistical tests of the charging module work on a copy: the frame the caller
  passed is the same object with the same content afterwards.
\<close>

lemma cp_perform_statistical_tests_frame:
  assumes "df < next_ref s"
  shows "objs (fst (cp_perform_statistical_tests lib s df)) df = objs s df"
  using assms
  by (simp add: cp_perform_statistical_tests_def copy_def setitem_def Let_def)

text \<open>
  C1. No analysis operation changes the cleaned dataset it is given.
  \<open>analyze_age_efficiency_relationship\<close> does: when the quartile grouping of battery
  capacity succeeds, the frame passed in has the new column \<open>battery_capacity_group\<close>
  afterwards.
\<close>

theorem analyze_age_efficiency_assigns_column:
  assumes "lib_qcut lib (map battery_capacity (rows (objs s df))) 4 capacity_labels = Inr groups"
    and "''battery_capacity_group'' \<notin> fst ` set (assigned (objs s df))"
  shows "assigned (objs (fst (analyze_age_efficiency_relationship lib s df)) df) =
           assigned (objs s df) @ [(''battery_capacity_group'', map Txt groups)] \<and>
         objs (fst (analyze_age_efficiency_relationship lib s df)) df \<noteq> objs s df"
proof -
  have a: "assigned (objs (fst (analyze_age_efficiency_relationship lib s df)) df) =
           assigned (objs s df) @ [(''battery_capacity_group'', map Txt groups)]"
    using assms by (simp add: analyze_age_efficiency_relationship_def Let_def setitem_def update_fresh)
  then have "assigned (objs (fst (analyze_age_efficiency_relationship lib s df)) df) \<noteq>
           assigned (objs s df)" by simp
  then have "objs (fst (analyze_age_efficiency_relationship lib s df)) df \<noteq> objs s df"
    by auto
  with a show ?thesis by simp
qed

theorem analyze_age_efficiency_assigns_column_witness:
  "lib_qcut example_lib
     (map battery_capacity
        (rows (objs (holding (fst (ev_prepare quantile_linear four_capacity_sessions))) 0)))
     4 capacity_labels = Inr [Some ''Q1'', Some ''Q2'', Some ''Q3'', Some ''Q4''] \<and>
   assigned (objs (holding (fst (ev_prepare quantile_linear four_capacity_sessions))) 0) = [] \<and>
   assigned (objs (fst (analyze_age_efficiency_relationship example_lib
       (holding (fst (ev_prepare quantile_linear four_capacity_sessions))) 0)) 0) =
     [(''battery_capacity_group'', [Txt (Some ''Q1''), Txt (Some ''Q2''), Txt (Some ''Q3''), Txt (Some ''Q4'')])]"
proof -
  let ?s = "holding (fst (ev_prepare quantile_linear four_capacity_sessions))"
  have q: "lib_qcut example_lib (map battery_capacity (rows (objs ?s 0))) 4 capacity_labels =
      Inr [Some ''Q1'', Some ''Q2'', Some ''Q3'', Some ''Q4'']"
    by (simp add: example_lib_def holding_def new_frame_def four_capacity_cleaned capacity_labels_def)
  have e: "assigned (objs ?s 0) = []"
    by (simp add: holding_def new_frame_def)
  then have n: "''battery_capacity_group'' \<notin> fst ` set (assigned (objs ?s 0))" by simp
  from analyze_age_efficiency_assigns_column [OF q n] q e show ?thesis by simp
qed

section \<open>Tests on fewer than two groups\<close>

lemma cp_run_tests_raises:
  assumes "length (unique (map user_type rs)) < 2"
  shows "isl (cp_run_tests lib rs)"
proof -
  have "getitem (unique (map user_type rs)) 1 = Inl IndexError"
    using assms by (simp add: getitem_def)
  then show ?thesis
    by (simp add: cp_run_tests_def Let_def split: sum.splits)
qed

lemma setitem_rows [simp]: "rows (objs (setitem s df name col) a) = rows (objs s a)"
  by (simp add: setitem_def)

lemma copy_rows [simp]: "rows (objs (fst (copy s df)) (snd (copy s df))) = rows (objs s df)"
  by (simp add: copy_def)

lemma cp_perform_statistical_tests_result:
  "snd (cp_perform_statistical_tests lib s df) = cp_run_tests lib (rows (objs s df))"
  by (simp add: cp_perform_statistical_tests_def Let_def split: prod.splits)
     (metis copy_rows fst_conv snd_conv)

lemma base_cleaned: "fst (cp_prepare [base_session]) = [with_time_features (base_session, Fin 70)]"
  by (simp add: cp_prepare_def with_percentage_charged_def base_session_def)

text \<open>
  The one-way ANOVA of the temperature module degrades: with fewer than two temperature
  ranges it returns NaN for both results and prints a warning.
\<close>

lemma anova_degrades:
  assumes "length (unique (map temp_range df)) < 2"
  shows "\<exists>r. analyze_temperature_impact lib df = Inr r \<and> f_statistic r = NaN \<and> p_value r = NaN \<and>
             printed r = [''Warning: Insufficient temperature ranges for comparison'']"
  using assms by (simp add: analyze_temperature_impact_def Let_def)

text \<open>
  C3. A test on fewer than two group levels returns an undefined result and a warning
  and does not raise. The t-test of the charging module does not: with fewer than two
  user types \<open>perform_statistical_tests\<close> ends in an error, the IndexError of
  \<open>user_types[1]\<close> when the tests before it return.
\<close>

theorem t_test_raises_below_two_user_types:
  assumes "length (unique (map user_type (rows (objs s df)))) < 2"
  shows "isl (snd (cp_perform_statistical_tests lib s df))"
  using assms by (simp add: cp_perform_statistical_tests_result cp_run_tests_raises)

theorem t_test_raises_below_two_user_types_witness:
  "unique (map user_type (rows (objs (holding (fst (cp_prepare [base_session]))) 0))) =
     [Some ''Commuter''] \<and>
   snd (cp_perform_statistical_tests example_lib (holding (fst (cp_prepare [base_session]))) 0) =
     Inl IndexError"
proof -
  let ?s = "holding (fst (cp_prepare [base_session]))"
  have u: "unique (map user_type (rows (objs ?s 0))) = [Some ''Commuter'']"
    by (simp add: holding_def new_frame_def base_cleaned unique_def) (simp add: base_session_def)
  then have h: "length (unique (map user_type (rows (objs ?s 0)))) < 2" by simp
  have r: "snd (cp_perform_statistical_tests example_lib ?s 0) = Inl IndexError"
    using u by (simp add: cp_perform_statistical_tests_result cp_run_tests_def example_lib_def
        getitem_def)
  from t_test_raises_below_two_user_types [OF h, of example_lib] u r show ?thesis by simp
qed

section \<open>Aggregation counts\<close>

lemma length_filter_disjoint:
  "(\<forall>x \<in> set xs. \<not> (A x \<and> B x)) \<Longrightarrow>
     length (filter A xs) + length (filter B xs) = length (filter (\<lambda>x. A x \<or> B x) xs)"
  by (induction xs) auto

lemma sum_group_sizes:
  assumes "distinct ks"
    and "\<And>k k' x. k \<noteq> k' \<Longrightarrow> \<not> (P k x \<and> P k' x)"
  shows "sum_list (map (\<lambda>k. length (filter (P k) xs)) ks) =
         length (filter (\<lambda>x. \<exists>k \<in> set ks. P k x) xs)"
  using assms(1)
proof (induction ks)
  case Nil
  then show ?case by simp
next
  case (Cons k ks)
  have disj: "\<forall>x \<in> set xs. \<not> (P k x \<and> (\<exists>k' \<in> set ks. P k' x))"
    using Cons.prems assms(2) by (metis distinct.simps(2))
  have "sum_list (map (\<lambda>k. length (filter (P k) xs)) (k # ks)) =
        length (filter (P k) xs) + length (filter (\<lambda>x. \<exists>k' \<in> set ks. P k' x) xs)"
    using Cons by simp
  also have "\<dots> = length (filter (\<lambda>x. P k x \<or> (\<exists>k' \<in> set ks. P k' x)) xs)"
    by (rule length_filter_disjoint [OF disj])
  also have "\<dots> = length (filter (\<lambda>x. \<exists>k' \<in> set (k # ks). P k' x) xs)"
    by (rule arg_cong [where f = length], rule filter_cong) auto
  finally show ?case .
qed

lemma sum_list_filter_zero:
  "(\<forall>x \<in> set xs. \<not> p x \<longrightarrow> f x = (0::nat)) \<Longrightarrow>
     sum_list (map f (filter p xs)) = sum_list (map f xs)"
  by (induction xs) auto

lemma agg_count_filter:
  "agg_count (map f (filter P xs)) = length (filter (\<lambda>x. P x \<and> \<not> isna (f x)) xs)"
  by (induction xs) (auto simp: agg_count_def)

lemma groupby2_count_total:
  assumes "distinct keys1" and "distinct keys2"
  shows "count_total (map (\<lambda>g. (fst g, agg_pattern lib (snd g)))
            (groupby2 keys1 keys2 key1 key2 df)) =
         length (filter (\<lambda>r. (\<exists>k \<in> set (List.product keys1 keys2).
                                 key1 r = Some (fst k) \<and> key2 r = Some (snd k)) \<and>
                              \<not> isna (percentage_charged r)) df)"
proof -
  let ?P = "\<lambda>k r. (key1 r = Some (fst k) \<and> key2 r = Some (snd k)) \<and> \<not> isna (percentage_charged r)"
  let ?mk = "\<lambda>k. (k, filter (\<lambda>r. key1 r = Some (fst k) \<and> key2 r = Some (snd k)) df)"
  let ?f = "\<lambda>g. agg_count (map percentage_charged (snd g))"
  have d: "distinct (List.product keys1 keys2)"
    using assms by (rule distinct_product)
  have "count_total (map (\<lambda>g. (fst g, agg_pattern lib (snd g)))
            (groupby2 keys1 keys2 key1 key2 df)) =
        sum_list (map ?f (filter (\<lambda>g. snd g \<noteq> []) (map ?mk (List.product keys1 keys2))))"
    by (simp add: count_total_def groupby2_def agg_pattern_def comp_def)
  also have "\<dots> = sum_list (map ?f (map ?mk (List.product keys1 keys2)))"
    by (rule sum_list_filter_zero) (auto simp: agg_count_def)
  also have "\<dots> = sum_list (map (\<lambda>k. length (filter (?P k) df)) (List.product keys1 keys2))"
    by (simp add: comp_def agg_count_filter)
  also have "\<dots> = length (filter (\<lambda>r. \<exists>k \<in> set (List.product keys1 keys2). ?P k r) df)"
    by (rule sum_group_sizes [OF d]) (auto simp: prod_eq_iff)
  also have "\<dots> = length (filter (\<lambda>r. (\<exists>k \<in> set (List.product keys1 keys2).
                                 key1 r = Some (fst k) \<and> key2 r = Some (snd k)) \<and>
                              \<not> isna (percentage_charged r)) df)"
    by (rule arg_cong [where f = length], rule filter_cong) auto
  finally show ?thesis .
qed

lemma level_values_set:
  "set (level_values key df) = {k. \<exists>r \<in> set df. key r = Some k}"
  by (force simp: level_values_def List.map_filter_def image_iff)

lemma level_values_distinct: "distinct (level_values key df)"
  by (simp add: level_values_def)

lemma cut_in_labels: "cut_bins bins labels x = Some l \<Longrightarrow> l \<in> set labels"
  by (induction bins labels x rule: cut_bins.induct) (auto split: if_splits)

lemma cp_prepare_not_na:
  "r \<in> set (fst (cp_prepare raw)) \<Longrightarrow> \<not> isna (percentage_charged r)"
  using cp_prepare_range [of r raw] by (auto simp: isna_def)

lemma cp_prepare_time_label:
  "r \<in> set (fst (cp_prepare raw)) \<Longrightarrow> time_of_day r = Some l \<Longrightarrow> l \<in> set time_of_day_labels"
  by (auto simp: cp_prepare_def Let_def dest: cut_in_labels)

lemma cp_prepare_start_time:
  assumes "r \<in> set (fst (cp_prepare raw))"
  shows "(day_of_week r \<noteq> None \<longleftrightarrow> (\<exists>t. charging_start_time r = Time t)) \<and>
         (time_of_day r \<noteq> None \<longleftrightarrow> (\<exists>t. charging_start_time r = Time t))"
proof -
  from assms obtain rp where r: "r = with_time_features rp"
    by (auto simp: cp_prepare_def Let_def)
  show ?thesis
    by (cases "charging_start_time (fst rp)")
       (simp_all add: r dt_day_name_def dt_hour_def cut_time_of_day time_of_day_bins_def
          time_of_day_labels_def)
qed

lemma cp_load_Inr_ex:
  "cp_load_and_prepare_data fs = Inr (cleaned, report) \<Longrightarrow> \<exists>raw. cleaned = fst (cp_prepare raw)"
  by (auto simp: cp_load_and_prepare_data_def read_csv_def split: option.splits sum.splits)
     (metis fst_conv)

text \<open>
  C8, as amended. For every cleaned charging-patterns dataset, the counts of the table by
  user type and day of week sum to the number of records that have a user type and a day
  of week, and the counts of the table by user type and time of day to the number of
  records that have a user type and a time of day; a group-by leaves out a record whose
  key is missing. When every record has a user type and a start time, both sums are the
  number of records. (The table by user type alone has no count.)
\<close>

theorem counts_sum_to_records_with_keys:
  assumes "cp_load_and_prepare_data fs = Inr (cleaned, report)"
  shows "count_total (day_patterns (analyze_charging_behavior lib cleaned)) =
           length (filter (\<lambda>r. user_type r \<noteq> None \<and> day_of_week r \<noteq> None) cleaned) \<and>
         count_total (time_patterns (analyze_charging_behavior lib cleaned)) =
           length (filter (\<lambda>r. user_type r \<noteq> None \<and> time_of_day r \<noteq> None) cleaned) \<and>
         ((\<forall>r \<in> set cleaned. user_type r \<noteq> None \<and> (\<exists>t. charging_start_time r = Time t)) \<longrightarrow>
            count_total (day_patterns (analyze_charging_behavior lib cleaned)) = length cleaned \<and>
            count_total (time_patterns (analyze_charging_behavior lib cleaned)) = length cleaned)"
proof -
  from cp_load_Inr_ex [OF assms] obtain raw where cleaned: "cleaned = fst (cp_prepare raw)" ..
  have day: "count_total (day_patterns (analyze_charging_behavior lib cleaned)) =
           length (filter (\<lambda>r. user_type r \<noteq> None \<and> day_of_week r \<noteq> None) cleaned)"
  proof -
    have "count_total (day_patterns (analyze_charging_behavior lib cleaned)) =
        length (filter (\<lambda>r. (\<exists>k \<in> set (List.product (level_values user_type cleaned)
                                          (level_values day_of_week cleaned)).
                                 user_type r = Some (fst k) \<and> day_of_week r = Some (snd k)) \<and>
                              \<not> isna (percentage_charged r)) cleaned)"
      by (simp add: analyze_charging_behavior_def groupby2_count_total level_values_distinct)
    also have "\<dots> = length (filter (\<lambda>r. user_type r \<noteq> None \<and> day_of_week r \<noteq> None) cleaned)"
      by (rule arg_cong [where f = length], rule filter_cong)
         (use cleaned cp_prepare_not_na in \<open>auto simp: level_values_set\<close>)
    finally show ?thesis .
  qed
  have time: "count_total (time_patterns (analyze_charging_behavior lib cleaned)) =
           length (filter (\<lambda>r. user_type r \<noteq> None \<and> time_of_day r \<noteq> None) cleaned)"
  proof -
    have "distinct time_of_day_labels" by (simp add: time_of_day_labels_def)
    then have "count_total (time_patterns (analyze_charging_behavior lib cleaned)) =
        length (filter (\<lambda>r. (\<exists>k \<in> set (List.product (level_values user_type cleaned)
                                          time_of_day_labels).
                                 user_type r = Some (fst k) \<and> time_of_day r = Some (snd k)) \<and>
                              \<not> isna (percentage_charged r)) cleaned)"
      by (simp add: analyze_charging_behavior_def groupby2_count_total level_values_distinct)
    also have "\<dots> = length (filter (\<lambda>r. user_type r \<noteq> None \<and> time_of_day r \<noteq> None) cleaned)"
      by (rule arg_cong [where f = length], rule filter_cong)
         (use cleaned cp_prepare_not_na cp_prepare_time_label in \<open>auto simp: level_values_set\<close>)
    finally show ?thesis .
  qed
  have all: "count_total (day_patterns (analyze_charging_behavior lib cleaned)) = length cleaned \<and>
            count_total (time_patterns (analyze_charging_behavior lib cleaned)) = length cleaned"
    if "\<forall>r \<in> set cleaned. user_type r \<noteq> None \<and> (\<exists>t. charging_start_time r = Time t)"
  proof -
    have "\<forall>r \<in> set cleaned. user_type r \<noteq> None \<and> day_of_week r \<noteq> None \<and> time_of_day r \<noteq> None"
      using that cleaned cp_prepare_start_time by blast
    then have "filter (\<lambda>r. user_type r \<noteq> None \<and> day_of_week r \<noteq> None) cleaned = cleaned"
      and "filter (\<lambda>r. user_type r \<noteq> None \<and> time_of_day r \<noteq> None) cleaned = cleaned"
      by (simp_all add: filter_id_conv)
    with day time show ?thesis by simp
  qed
  from day time all show ?thesis by blast
qed

theorem counts_sum_to_records_with_keys_witness:
  "cp_load_and_prepare_data (csv_only [base_session, discharged_session]) =
     Inr (cp_prepare [base_session, discharged_session]) \<and>
   length (fst (cp_prepare [base_session, discharged_session])) = 1 \<and>
   count_total (day_patterns (analyze_charging_behavior example_lib
      (fst (cp_prepare [base_session, discharged_session])))) = 1 \<and>
   count_total (time_patterns (analyze_charging_behavior example_lib
      (fst (cp_prepare [base_session, discharged_session])))) = 1"
proof -
  let ?c = "fst (cp_prepare [base_session, discharged_session])"
  have l: "cp_load_and_prepare_data (csv_only [base_session, discharged_session]) =
     Inr (?c, snd (cp_prepare [base_session, discharged_session]))"
    by (simp add: csv_only_loads base_session_def discharged_session_def)
  have c: "?c = [with_time_features (base_session, Fin 70)]"
    by (simp add: cp_prepare_def with_percentage_charged_def base_session_def discharged_session_def)
  have k: "list_all (\<lambda>r. user_type r \<noteq> None \<and> (\<exists>t. charging_start_time r = Time t)) ?c"
    by (simp add: c) (simp add: base_session_def)
  have n: "length ?c = 1" by (simp add: c)
  from counts_sum_to_records_with_keys [OF l, of example_lib] k
  have "count_total (day_patterns (analyze_charging_behavior example_lib ?c)) = length ?c \<and>
        count_total (time_patterns (analyze_charging_behavior example_lib ?c)) = length ?c"
    unfolding list_all_iff by blast
  with l n show ?thesis by simp
qed

text \<open>
  The claim as stated fails on a session without a user type: it is in the cleaned
  dataset, and in no group.
\<close>

theorem missing_user_type_not_counted:
  "length (fst (cp_prepare [anonymous_session])) = 1 \<and>
   count_total (day_patterns (analyze_charging_behavior example_lib
      (fst (cp_prepare [anonymous_session])))) = 0 \<and>
   count_total (time_patterns (analyze_charging_behavior example_lib
      (fst (cp_prepare [anonymous_session])))) = 0"
proof -
  have c: "fst (cp_prepare [anonymous_session]) = [with_time_features (anonymous_session, Fin 70)]"
    by (simp add: cp_prepare_def with_percentage_charged_def anonymous_session_def base_session_def)
  have l: "level_values user_type [with_time_features (anonymous_session, Fin 70)] = []"
    by (simp add: level_values_def anonymous_session_def List.map_filter_simps)
  show ?thesis
    by (simp add: c analyze_charging_behavior_def l groupby2_def count_total_def)
qed

end
